theory Spec2Isabelle
  imports Complex_Main
begin

section \<open>Spending trends of the Personal Finance Tracker\<close>

text \<open>
  The development embeds the trend endpoint of the API: \<open>GetSpendingTrends\<close>,
  \<open>calculateSpendingTrends\<close>, \<open>getHistoricalAverage\<close> and \<open>calculatePrediction\<close> of
  package \<open>handlers\<close>, and the constants of package \<open>models\<close>.

  Two readings are fixed once and used throughout.
  \<^item> Go's \<open>float64\<close> is read as \<open>real\<close>: the arithmetic of the handler is taken exactly,
    without rounding, infinities or NaN.
  \<^item> A \<open>time.Time\<close> is the number of seconds since 0001-01-01 00:00:00 UTC, the instant Go
    counts wall seconds from. Dates are parsed without a zone, hence in UTC, and the handler
    never leaves that location. Nanoseconds are always zero here and are left out.
\<close>

subsection \<open>Amounts and errors\<close>

type_synonym float64 = real

datatype error =
    ParseError string
  | InvalidPeriod string
  | BindError string
  | QueryError string
  | ScanError string

subsection \<open>Package time of the Go library, as far as the handler calls it\<close>

type_synonym Time = int

definition secondsPerDay :: int where
  "secondsPerDay = 86400"

definition isLeap :: "int \<Rightarrow> bool" where
  "isLeap year = (year mod 4 = 0 \<and> (year mod 100 \<noteq> 0 \<or> year mod 400 = 0))"

text \<open>\<open>daysBefore m\<close> counts the days of a non-leap year before month \<open>m + 1\<close>.\<close>

definition daysBefore :: "int \<Rightarrow> int" where
  "daysBefore m = [0, 31, 59, 90, 120, 151, 181, 212, 243, 273, 304, 334, 365] ! nat m"

definition daysIn :: "int \<Rightarrow> int \<Rightarrow> int" where
  "daysIn m year =
     (if m = 2 \<and> isLeap year then 29 else daysBefore m - daysBefore (m - 1))"

text \<open>
  Days from the epoch to the first of January of a year, by cycles of 400, 100, 4 and 1
  years. Division rounds down, so years before the epoch need no separate treatment.
\<close>

definition daysSinceEpoch :: "int \<Rightarrow> int" where
  "daysSinceEpoch year =
     (let y = year - 1;
          n400 = y div 400;
          y1 = y - 400 * n400;
          n100 = y1 div 100;
          y2 = y1 - 100 * n100;
          n4 = y2 div 4;
          y3 = y2 - 4 * n4
      in 146097 * n400 + 36524 * n100 + 1461 * n4 + 365 * y3)"

text \<open>
  The way back, from a day count to the year and the day within it: the 100-year and the
  1-year quotient can reach 4 on the last day of a cycle and are cut to 3.
\<close>

definition yearDay :: "int \<Rightarrow> int \<times> int" where
  "yearDay d =
     (let n400 = d div 146097;
          d1 = d - 146097 * n400;
          n = d1 div 36524;
          n100 = n - n div 4;
          d2 = d1 - 36524 * n100;
          n4 = d2 div 1461;
          d3 = d2 - 1461 * n4;
          n' = d3 div 365;
          n1 = n' - n' div 4;
          yday = d3 - 365 * n1
      in (400 * n400 + 100 * n100 + 4 * n4 + n1 + 1, yday))"

text \<open>
  Month and day of the month from a day of a non-leap year: the estimate \<open>day div 31\<close> is
  too low by at most one month.
\<close>

definition monthOf :: "int \<Rightarrow> int \<times> int" where
  "monthOf day =
     (let month = day div 31;
          e = daysBefore (month + 1)
      in if day \<ge> e then (month + 1 + 1, day - e + 1)
         else (month + 1, day - daysBefore month + 1))"

definition monthDay :: "bool \<Rightarrow> int \<Rightarrow> int \<times> int" where
  "monthDay leap yday =
     (if leap \<and> yday = 31 + 29 - 1 then (2, 29)
      else monthOf (if leap \<and> yday > 31 + 29 - 1 then yday - 1 else yday))"

definition absDate :: "int \<Rightarrow> int \<times> int \<times> int" where
  "absDate days =
     (case yearDay days of (year, yday) \<Rightarrow>
        case monthDay (isLeap year) yday of (month, day) \<Rightarrow> (year, month, day))"

text \<open>
  \<open>time.Date\<close> accepts any month and day and normalises them: a month outside 1..12
  overflows into the year, a day outside the month into the following or preceding days.
\<close>

definition civilDays :: "int \<Rightarrow> int \<Rightarrow> int \<Rightarrow> int" where
  "civilDays year month day =
     (let m = month - 1;
          year' = year + m div 12;
          month' = m mod 12 + 1
      in daysSinceEpoch year' + daysBefore (month' - 1)
         + (if isLeap year' \<and> month' \<ge> 3 then 1 else 0) + (day - 1))"

definition Date :: "int \<Rightarrow> int \<Rightarrow> int \<Rightarrow> int \<Rightarrow> int \<Rightarrow> int \<Rightarrow> Time" where
  "Date year month day hour minute sec =
     civilDays year month day * secondsPerDay + hour * 3600 + minute * 60 + sec"

definition Year :: "Time \<Rightarrow> int" where
  "Year t = (case absDate (t div secondsPerDay) of (year, month, day) \<Rightarrow> year)"

definition Month :: "Time \<Rightarrow> int" where
  "Month t = (case absDate (t div secondsPerDay) of (year, month, day) \<Rightarrow> month)"

definition Day :: "Time \<Rightarrow> int" where
  "Day t = (case absDate (t div secondsPerDay) of (year, month, day) \<Rightarrow> day)"

definition Clock :: "Time \<Rightarrow> int \<times> int \<times> int" where
  "Clock t =
     (let sec = t mod secondsPerDay;
          hour = sec div 3600;
          sec1 = sec - hour * 3600;
          minute = sec1 div 60;
          sec2 = sec1 - minute * 60
      in (hour, minute, sec2))"

text \<open>Sunday is 0 and Saturday is 6; the epoch is a Monday.\<close>

definition Weekday :: "Time \<Rightarrow> int" where
  "Weekday t = ((t + 1 * secondsPerDay) mod (7 * secondsPerDay)) div secondsPerDay"

definition AddDate :: "Time \<Rightarrow> int \<Rightarrow> int \<Rightarrow> int \<Rightarrow> Time" where
  "AddDate t years months days =
     (case Clock t of (hour, minute, sec) \<Rightarrow>
        Date (Year t + years) (Month t + months) (Day t + days) hour minute sec)"

text \<open>
  \<open>time.Parse\<close> with the layout \<open>2006-01-02\<close>: four digits, a dash, two digits, a dash, two
  digits and nothing more; the month must lie in 1..12 and the day in the month.
\<close>

definition isDigit :: "char \<Rightarrow> bool" where
  "isDigit c = (48 \<le> (of_char c :: nat) \<and> (of_char c :: nat) \<le> 57)"

definition digitValue :: "char \<Rightarrow> int" where
  "digitValue c = int (of_char c) - 48"

definition Parse :: "string \<Rightarrow> error + Time" where
  "Parse s =
     (if length s = 10
         \<and> isDigit (s ! 0) \<and> isDigit (s ! 1) \<and> isDigit (s ! 2) \<and> isDigit (s ! 3)
         \<and> s ! 4 = CHR ''-'' \<and> isDigit (s ! 5) \<and> isDigit (s ! 6)
         \<and> s ! 7 = CHR ''-'' \<and> isDigit (s ! 8) \<and> isDigit (s ! 9)
      then
        let year = 1000 * digitValue (s ! 0) + 100 * digitValue (s ! 1)
                   + 10 * digitValue (s ! 2) + digitValue (s ! 3);
            month = 10 * digitValue (s ! 5) + digitValue (s ! 6);
            day = 10 * digitValue (s ! 8) + digitValue (s ! 9)
        in if month \<le> 0 \<or> 12 < month then Inl (ParseError s)
           else if day < 1 \<or> day > daysIn month year then Inl (ParseError s)
           else Inr (Date year month day 0 0 0)
      else Inl (ParseError s))"




subsection \<open>Package models\<close>

record SpendingTrend =
  CategoryID :: int
  CategoryName :: string
  CurrentSpend :: float64
  PredictedSpend :: float64
  TrendDirection :: string
  ChangePercent :: float64



text \<open>The package-level values of the constants file.\<close>

record PredictionWeights =
  Current :: float64
  Trend :: float64
  Historical :: float64

definition PredictionConfig :: PredictionWeights where
  "PredictionConfig = \<lparr>Current = 0.4, Trend = 0.4, Historical = 0.2\<rparr>"

record TrendThresholds =
  UpThreshold :: float64
  DownThreshold :: float64

definition TrendLimits :: TrendThresholds where
  "TrendLimits = \<lparr>UpThreshold = 10.0, DownThreshold = - 10.0\<rparr>"

record PredictionFactors =
  ConservativeEstimate :: float64

definition PredictionSettings :: PredictionFactors where
  "PredictionSettings = \<lparr>ConservativeEstimate = 0.8\<rparr>"

subsection \<open>The database handle\<close>

text \<open>
  The handler reaches the store through three statements. Each is a function of its
  arguments that fails as a whole or answers: the two aggregation statements with rows, of
  which any single one may fail to scan, the average with one number.
\<close>

type_synonym current_row = "int \<times> string \<times> float64"
type_synonym prev_row = "int \<times> float64"

record DB =
  Query_current :: "int \<Rightarrow> Time \<Rightarrow> Time \<Rightarrow> error + (error + current_row) list"
  Query_prev :: "int \<Rightarrow> Time \<Rightarrow> Time \<Rightarrow> error + (error + prev_row) list"
  QueryRow_avg :: "int \<Rightarrow> int \<Rightarrow> int \<Rightarrow> error + float64"

subsection \<open>calculatePrediction\<close>

text \<open>
  The three weights are the constants declared inside the function; the period argument
  is accepted and not used, as in the source.
\<close>

definition currentWeight :: float64 where
  "currentWeight = 0.4"

definition trendWeight :: float64 where
  "trendWeight = 0.4"

definition historicalWeight :: float64 where
  "historicalWeight = 0.2"

definition calculatePrediction :: "float64 \<Rightarrow> float64 \<Rightarrow> float64 \<Rightarrow> string \<Rightarrow> float64" where
  "calculatePrediction current previous historical period =
     (let trendFactor = (if previous > 0 then current - previous else 0);
          prediction = (current * currentWeight) + (trendFactor * trendWeight)
                       + (historical * historicalWeight)
      in if prediction < 0 then current * 0.8 else prediction)"

subsection \<open>getHistoricalAverage\<close>

text \<open>The switch has no default: any other period leaves \<open>days\<close> at zero.\<close>

definition getHistoricalAverage :: "DB \<Rightarrow> int \<Rightarrow> int \<Rightarrow> string \<Rightarrow> error + float64" where
  "getHistoricalAverage db userID categoryID period =
     (let days = (if period = ''day'' then 30
                  else if period = ''week'' then 84
                  else if period = ''month'' then 365
                  else 0)
      in QueryRow_avg db userID categoryID days)"

subsection \<open>calculateSpendingTrends\<close>

text \<open>
  The switch over the period, giving \<open>startDate\<close>, \<open>endDate\<close>, \<open>prevStartDate\<close> and
  \<open>prevEndDate\<close> in this order.
\<close>

definition dateRanges :: "string \<Rightarrow> Time \<Rightarrow> error + (Time \<times> Time \<times> Time \<times> Time)" where
  "dateRanges period date =
     (if period = ''day'' then
        let startDate = Date (Year date) (Month date) (Day date) 0 0 0;
            endDate = AddDate startDate 0 0 1;
            prevStartDate = AddDate startDate 0 0 (- 1);
            prevEndDate = startDate
        in Inr (startDate, endDate, prevStartDate, prevEndDate)
      else if period = ''week'' then
        let weekday0 = Weekday date;
            weekday = (if weekday0 = 0 then 7 else weekday0);
            startDate0 = AddDate date 0 0 (- (weekday - 1));
            startDate = Date (Year startDate0) (Month startDate0) (Day startDate0) 0 0 0;
            endDate = AddDate startDate 0 0 7;
            prevStartDate = AddDate startDate 0 0 (- 7);
            prevEndDate = startDate
        in Inr (startDate, endDate, prevStartDate, prevEndDate)
      else if period = ''month'' then
        let startDate = Date (Year date) (Month date) 1 0 0 0;
            endDate = AddDate startDate 0 1 0;
            prevStartDate = AddDate startDate 0 (- 1) 0;
            prevEndDate = startDate
        in Inr (startDate, endDate, prevStartDate, prevEndDate)
      else Inl (InvalidPeriod period))"

text \<open>
  The previous period's rows fill a map; a row that fails to scan is skipped, a later row
  of the same category overwrites an earlier one, and a category that is not in the map
  reads as zero.
\<close>

fun storePrev :: "(int \<rightharpoonup> float64) \<Rightarrow> (error + prev_row) list \<Rightarrow> (int \<rightharpoonup> float64)" where
  "storePrev prevSpending [] = prevSpending"
| "storePrev prevSpending (Inl err # rows) = storePrev prevSpending rows"
| "storePrev prevSpending (Inr (categoryID, amount) # rows) =
     storePrev (prevSpending(categoryID \<mapsto> amount)) rows"

definition prevAmountOf :: "(int \<rightharpoonup> float64) \<Rightarrow> int \<Rightarrow> float64" where
  "prevAmountOf prevSpending categoryID =
     (case prevSpending categoryID of None \<Rightarrow> 0 | Some amount \<Rightarrow> amount)"

text \<open>The body of the loop over the current period's rows, for a row that scanned.\<close>

definition trendOf ::
  "DB \<Rightarrow> int \<Rightarrow> string \<Rightarrow> (int \<rightharpoonup> float64) \<Rightarrow> current_row \<Rightarrow> SpendingTrend" where
  "trendOf db userID period prevSpending row =
     (case row of (categoryID, categoryName, currentSpend) \<Rightarrow>
        let historicalAvg =
              (case getHistoricalAverage db userID categoryID period of
                 Inl err \<Rightarrow> currentSpend
               | Inr avg \<Rightarrow> avg);
            prevAmount = prevAmountOf prevSpending categoryID;
            prediction = calculatePrediction currentSpend prevAmount historicalAvg period;
            change = ((currentSpend - prevAmount) / prevAmount) * 100
        in \<lparr>CategoryID = categoryID,
            CategoryName = categoryName,
            CurrentSpend = currentSpend,
            PredictedSpend = prediction,
            TrendDirection =
              (if prevAmount > 0 then
                 (if change > 10 then ''up''
                  else if change < - 10 then ''down''
                  else ''stable'')
               else ''new''),
            ChangePercent = (if prevAmount > 0 then change else 0)\<rparr>)"

fun trendsLoop ::
  "DB \<Rightarrow> int \<Rightarrow> string \<Rightarrow> (int \<rightharpoonup> float64) \<Rightarrow> (error + current_row) list
     \<Rightarrow> SpendingTrend list" where
  "trendsLoop db userID period prevSpending [] = []"
| "trendsLoop db userID period prevSpending (Inl err # rows) =
     trendsLoop db userID period prevSpending rows"
| "trendsLoop db userID period prevSpending (Inr row # rows) =
     trendOf db userID period prevSpending row # trendsLoop db userID period prevSpending rows"

definition calculateSpendingTrends ::
  "DB \<Rightarrow> int \<Rightarrow> string \<Rightarrow> string \<Rightarrow> error + SpendingTrend list" where
  "calculateSpendingTrends db userID period dateStr =
     (case Parse dateStr of
        Inl err \<Rightarrow> Inl err
      | Inr date \<Rightarrow>
          (case dateRanges period date of
             Inl err \<Rightarrow> Inl err
           | Inr (startDate, endDate, prevStartDate, prevEndDate) \<Rightarrow>
               (case Query_current db userID startDate endDate of
                  Inl err \<Rightarrow> Inl err
                | Inr currentRows \<Rightarrow>
                    (case Query_prev db userID prevStartDate prevEndDate of
                       Inl err \<Rightarrow> Inl err
                     | Inr prevRows \<Rightarrow>
                         Inr (trendsLoop db userID period
                                (storePrev Map.empty prevRows) currentRows)))))"

subsection \<open>GetSpendingTrends\<close>









subsection \<open>The three statements over a store of categories and transactions\<close>

text \<open>
  Only the columns the statements read are kept. \<open>NOW\<close> is the instant the store answers
  \<open>NOW()\<close> with.
\<close>

record Category =
  cat_ID :: int
  cat_UserID :: int
  cat_Name :: string
  cat_Type :: string

record Transaction =
  tx_UserID :: int
  tx_CategoryID :: int
  tx_Amount :: float64
  tx_Type :: string
  tx_Date :: Time

record Store =
  categories :: "Category list"
  transactions :: "Transaction list"
  NOW :: Time

text \<open>The rows of \<open>transactions\<close> that the \<open>ON\<close> clause joins to a category.\<close>

definition joined :: "Store \<Rightarrow> int \<Rightarrow> Time \<Rightarrow> Time \<Rightarrow> Category \<Rightarrow> Transaction list" where
  "joined st userID startDate endDate c =
     filter (\<lambda>t. cat_ID c = tx_CategoryID t \<and> tx_UserID t = userID \<and> tx_Type t = ''expense''
                 \<and> tx_Date t \<ge> startDate \<and> tx_Date t < endDate)
       (transactions st)"

text \<open>The \<open>WHERE\<close> clause of both aggregation statements.\<close>

definition expenseCategories :: "Store \<Rightarrow> int \<Rightarrow> Category list" where
  "expenseCategories st userID =
     filter (\<lambda>c. cat_UserID c = userID \<and> cat_Type c = ''expense'') (categories st)"

text \<open>
  \<open>COALESCE(SUM(t.amount), 0)\<close> over a group: a category without a joined transaction
  contributes its one row of the left join with a null amount, which the sum passes over;
  a group with nothing to add is null and becomes 0, which is the empty sum.
\<close>

definition groupAmount :: "Store \<Rightarrow> int \<Rightarrow> Time \<Rightarrow> Time \<Rightarrow> Category list \<Rightarrow> float64" where
  "groupAmount st userID startDate endDate cs =
     sum_list (concat (map (\<lambda>c. map tx_Amount (joined st userID startDate endDate c)) cs))"

text \<open>
  The current period's statement groups by id and name and orders by amount, largest
  first. The order among equal amounts is the store's choice; here it is the order of
  first appearance.
\<close>

definition currentQuery :: "Store \<Rightarrow> int \<Rightarrow> Time \<Rightarrow> Time \<Rightarrow> current_row list" where
  "currentQuery st userID startDate endDate =
     (let cs = expenseCategories st userID;
          groups = remdups (map (\<lambda>c. (cat_ID c, cat_Name c)) cs)
      in sort_key (\<lambda>(categoryID, categoryName, amount). - amount)
           (map (\<lambda>(categoryID, categoryName).
                   (categoryID, categoryName,
                    groupAmount st userID startDate endDate
                      (filter (\<lambda>c. cat_ID c = categoryID \<and> cat_Name c = categoryName) cs)))
              groups))"

text \<open>The previous period's statement groups by id alone and is not ordered.\<close>

definition prevQuery :: "Store \<Rightarrow> int \<Rightarrow> Time \<Rightarrow> Time \<Rightarrow> prev_row list" where
  "prevQuery st userID startDate endDate =
     (let cs = expenseCategories st userID;
          groups = remdups (map cat_ID cs)
      in map (\<lambda>categoryID.
                (categoryID,
                 groupAmount st userID startDate endDate
                   (filter (\<lambda>c. cat_ID c = categoryID) cs)))
           groups)"

text \<open>
  \<open>COALESCE(AVG(amount), 0)\<close> over the expense transactions of a category no older than
  the given number of days.
\<close>

definition avgQuery :: "Store \<Rightarrow> int \<Rightarrow> int \<Rightarrow> int \<Rightarrow> float64" where
  "avgQuery st userID categoryID days =
     (let amounts =
            map tx_Amount
              (filter (\<lambda>t. tx_UserID t = userID \<and> tx_CategoryID t = categoryID
                           \<and> tx_Type t = ''expense''
                           \<and> tx_Date t \<ge> NOW st - days * secondsPerDay)
                 (transactions st))
      in if amounts = [] then 0 else sum_list amounts / real (length amounts))"

definition storeDB :: "Store \<Rightarrow> DB" where
  "storeDB st =
     \<lparr>Query_current = (\<lambda>userID startDate endDate.
                         Inr (map Inr (currentQuery st userID startDate endDate))),
      Query_prev = (\<lambda>userID startDate endDate.
                      Inr (map Inr (prevQuery st userID startDate endDate))),
      QueryRow_avg = (\<lambda>userID categoryID days.
                        Inr (avgQuery st userID categoryID days))\<rparr>"

subsection \<open>The configurable forecast and classification of the specification\<close>

text \<open>
  The specification asks for weights, floor factor and thresholds taken from a
  configuration. These two definitions follow its words, to be compared with the handler.
\<close>

definition spec_configuredPrediction ::
  "PredictionWeights \<Rightarrow> PredictionFactors \<Rightarrow> float64 \<Rightarrow> float64 \<Rightarrow> float64 \<Rightarrow> float64" where
  "spec_configuredPrediction weights factors current previous historical =
     (let trendDelta = (if previous > 0 then current - previous else 0);
          predicted = current * Current weights + trendDelta * Trend weights
                      + historical * Historical weights
      in if predicted < 0 then current * ConservativeEstimate factors else predicted)"

definition spec_configuredDirection :: "TrendThresholds \<Rightarrow> float64 \<Rightarrow> float64 \<Rightarrow> string \<times> float64" where
  "spec_configuredDirection limits current previous =
     (if previous > 0 then
        let changePercent = (current - previous) / previous * 100
        in (if changePercent > UpThreshold limits then ''up''
            else if changePercent < DownThreshold limits then ''down''
            else ''stable'', changePercent)
      else (''new'', 0))"

subsection \<open>Status classes and sample data\<close>



text \<open>
  A store with two expense categories and an income category of user 7, an expense
  category of user 8, and two rent payments of user 7, one in January 2024 and one in
  December 2023. \<open>otherStore\<close> differs from it in the data of user 8 only.
\<close>

definition sampleStore :: Store where
  "sampleStore =
     \<lparr>categories =
        [\<lparr>cat_ID = 1, cat_UserID = 7, cat_Name = ''Food'', cat_Type = ''expense''\<rparr>,
         \<lparr>cat_ID = 2, cat_UserID = 7, cat_Name = ''Rent'', cat_Type = ''expense''\<rparr>,
         \<lparr>cat_ID = 3, cat_UserID = 7, cat_Name = ''Pay'', cat_Type = ''income''\<rparr>,
         \<lparr>cat_ID = 4, cat_UserID = 8, cat_Name = ''Other'', cat_Type = ''expense''\<rparr>],
      transactions =
        [\<lparr>tx_UserID = 7, tx_CategoryID = 2, tx_Amount = 100, tx_Type = ''expense'',
          tx_Date = Date 2024 1 10 12 0 0\<rparr>,
         \<lparr>tx_UserID = 7, tx_CategoryID = 2, tx_Amount = 80, tx_Type = ''expense'',
          tx_Date = Date 2023 12 10 12 0 0\<rparr>],
      NOW = Date 2024 1 20 0 0 0\<rparr>"


definition failingAvg :: DB where
  "failingAvg =
     (storeDB sampleStore)
       \<lparr>QueryRow_avg := (\<lambda>userID categoryID days. Inl (QueryError ''connection refused''))\<rparr>"



definition samplePrev :: "int \<rightharpoonup> float64" where
  "samplePrev = storePrev Map.empty [Inr (2, 80), Inl (ScanError ''bad row''), Inr (3, 200)]"

section \<open>The calendar\<close>

subsection \<open>Years in cycles of 400, 100, 4 and 1\<close>

lemma year_cycles:
  fixes y :: int
  obtains a b c e where "y - 1 = 400 * a + 100 * b + 4 * c + e"
    "0 \<le> b" "b \<le> 3" "0 \<le> c" "c \<le> 24" "0 \<le> e" "e \<le> 3"
proof -
  define Y where "Y = y - 1"
  define a where "a = Y div 400"
  define r where "r = Y mod 400"
  define b where "b = r div 100"
  define s where "s = r mod 100"
  define c where "c = s div 4"
  define e where "e = s mod 4"
  have Y: "Y = 400 * a + r" by (simp add: a_def r_def)
  have r: "r = 100 * b + s" by (simp add: b_def s_def)
  have s: "s = 4 * c + e" by (simp add: c_def e_def)
  have rb: "0 \<le> r" "r < 400" by (simp_all add: r_def)
  have sb: "0 \<le> s" "s < 100" by (simp_all add: s_def)
  have eb: "0 \<le> e" "e < 4" by (simp_all add: e_def)
  have "0 \<le> b" "b \<le> 3" "0 \<le> c" "c \<le> 24"
    using rb sb eb r s by linarith+
  moreover have "y - 1 = 400 * a + 100 * b + 4 * c + e"
    using Y r s by (simp add: Y_def)
  ultimately show thesis using eb that by force
qed

lemma dse_cycles:
  assumes "y - 1 = 400 * a + 100 * b + 4 * c + e"
    "0 \<le> b" "b \<le> 3" "0 \<le> c" "c \<le> 24" "0 \<le> e" "e \<le> 3"
  shows "daysSinceEpoch y = 146097 * a + 36524 * b + 1461 * c + 365 * e"
proof -
  have a: "(y - 1) div 400 = a"
    by (rule int_div_pos_eq [where r = "100 * b + 4 * c + e"]) (use assms in linarith)+
  have y1: "y - 1 - 400 * a = 100 * b + 4 * c + e" using assms by linarith
  have b: "(100 * b + 4 * c + e) div 100 = b"
    by (rule int_div_pos_eq [where r = "4 * c + e"]) (use assms in linarith)+
  have y2: "100 * b + 4 * c + e - 100 * b = 4 * c + e" by simp
  have c: "(4 * c + e) div 4 = c"
    by (rule int_div_pos_eq [where r = e]) (use assms in linarith)+
  show ?thesis
    unfolding daysSinceEpoch_def Let_def a y1 b y2 c by simp
qed

lemma mod_eq_0_top:
  fixes v n :: int
  assumes "0 < v" "v \<le> n"
  shows "v mod n = 0 \<longleftrightarrow> v = n"
proof (cases "v = n")
  case True
  then show ?thesis by simp
next
  case False
  with assms have "v mod n = v" by simp
  with False assms show ?thesis by simp
qed

lemma mod_shift:
  fixes y r k q :: int
  assumes "y = r + k * q"
  shows "y mod k = r mod k"
  using assms by simp

lemma isLeap_cycles:
  assumes "y - 1 = 400 * a + 100 * b + 4 * c + e"
    "0 \<le> b" "b \<le> 3" "0 \<le> c" "c \<le> 24" "0 \<le> e" "e \<le> 3"
  shows "isLeap y \<longleftrightarrow> e = 3 \<and> (c = 24 \<longrightarrow> b = 3)"
proof -
  have m4: "y mod 4 = (e + 1) mod 4"
    by (rule mod_shift [where q = "100 * a + 25 * b + c"]) (use assms(1) in simp)
  have m100: "y mod 100 = (4 * c + e + 1) mod 100"
    by (rule mod_shift [where q = "4 * a + b"]) (use assms(1) in simp)
  have m400: "y mod 400 = (100 * b + 4 * c + e + 1) mod 400"
    by (rule mod_shift [where q = a]) (use assms(1) in simp)
  have e4: "(e + 1) mod 4 = 0 \<longleftrightarrow> e + 1 = 4"
    by (rule mod_eq_0_top) (use assms in linarith)+
  have c100: "(4 * c + e + 1) mod 100 = 0 \<longleftrightarrow> 4 * c + e + 1 = 100"
    by (rule mod_eq_0_top) (use assms in linarith)+
  have b400: "(100 * b + 4 * c + e + 1) mod 400 = 0 \<longleftrightarrow> 100 * b + 4 * c + e + 1 = 400"
    by (rule mod_eq_0_top) (use assms in linarith)+
  have "isLeap y \<longleftrightarrow> e + 1 = 4 \<and> (4 * c + e + 1 \<noteq> 100 \<or> 100 * b + 4 * c + e + 1 = 400)"
    unfolding isLeap_def m4 m100 m400 e4 c100 b400 ..
  also have "\<dots> \<longleftrightarrow> e = 3 \<and> (c = 24 \<longrightarrow> b = 3)"
    using assms by auto
  finally show ?thesis .
qed

lemma div4_small:
  fixes n :: int
  assumes "0 \<le> n" "n \<le> 4"
  shows "n - n div 4 = (if n = 4 then 3 else n)"
proof (cases "n = 4")
  case True
  then show ?thesis by simp
next
  case False
  with assms have "n div 4 = 0" by simp
  with False show ?thesis by simp
qed

lemma yearDayI:
  assumes "d div 146097 = qa" "d - 146097 * qa = ra"
    "ra div 36524 = n" "n - n div 4 = qb" "ra - 36524 * qb = rb"
    "rb div 1461 = qc" "rb - 1461 * qc = rc"
    "rc div 365 = m" "m - m div 4 = qe" "rc - 365 * qe = yday"
    "400 * qa + 100 * qb + 4 * qc + qe + 1 = year"
  shows "yearDay d = (year, yday)"
  by (simp only: yearDay_def Let_def assms)

lemma yearDay_cycles:
  assumes cyc: "y - 1 = 400 * a + 100 * b + 4 * c + e"
    "0 \<le> b" "b \<le> 3" "0 \<le> c" "c \<le> 24" "0 \<le> e" "e \<le> 3"
    and yd: "0 \<le> yd" "yd < (if isLeap y then 366 else 365)"
  shows "yearDay (146097 * a + 36524 * b + 1461 * c + 365 * e + yd) = (y, yd)"
proof -
  have leap: "yd = 365 \<Longrightarrow> e = 3 \<and> (c = 24 \<longrightarrow> b = 3)"
    using yd isLeap_cycles [OF cyc] by (auto split: if_splits)
  have yrc65: "yd \<le> 365" using yd by (auto split: if_splits)
  define n where "n = (if 1461 * c + 365 * e + yd < 36524 then b else 4)"
  define m where "m = (if yd < 365 then e else 4)"
  show ?thesis
  proof (rule yearDayI [where qa = a and qb = b and qc = c and qe = e
        and ra = "36524 * b + 1461 * c + 365 * e + yd" and n = n
        and rb = "1461 * c + 365 * e + yd" and rc = "365 * e + yd" and m = m])
    show "(146097 * a + 36524 * b + 1461 * c + 365 * e + yd) div 146097 = a"
      by (rule int_div_pos_eq [where r = "36524 * b + 1461 * c + 365 * e + yd"])
        (use cyc yd(1) yrc65 in linarith)+
    show "(36524 * b + 1461 * c + 365 * e + yd) div 36524 = n"
    proof (cases "1461 * c + 365 * e + yd < 36524")
      case True
      have "(36524 * b + 1461 * c + 365 * e + yd) div 36524 = b"
        by (rule int_div_pos_eq [where r = "1461 * c + 365 * e + yd"])
          (use cyc yd(1) True in linarith)+
      with True show ?thesis by (simp add: n_def)
    next
      case False
      with cyc yrc65 have "c = 24" "e = 3" "yd = 365" by linarith+
      with leap have "b = 3" by simp
      show ?thesis
        unfolding n_def \<open>c = 24\<close> \<open>e = 3\<close> \<open>yd = 365\<close> \<open>b = 3\<close> by simp
    qed
    show "n - n div 4 = b"
    proof (cases "1461 * c + 365 * e + yd < 36524")
      case True
      then show ?thesis using cyc div4_small [of b] by (simp add: n_def)
    next
      case False
      with cyc yrc65 have "c = 24" "e = 3" "yd = 365" by linarith+
      with leap have "b = 3" by simp
      with False show ?thesis by (simp add: n_def)
    qed
    show "(1461 * c + 365 * e + yd) div 1461 = c"
      by (rule int_div_pos_eq [where r = "365 * e + yd"])
        (use cyc yd(1) yrc65 in linarith)+
    show "(365 * e + yd) div 365 = m"
    proof (cases "yd < 365")
      case True
      have "(365 * e + yd) div 365 = e"
        by (rule int_div_pos_eq [where r = yd]) (use yd(1) True in linarith)+
      with True show ?thesis by (simp add: m_def)
    next
      case False
      with yrc65 have "yd = 365" by simp
      with leap have "e = 3" by simp
      show ?thesis unfolding m_def \<open>e = 3\<close> \<open>yd = 365\<close> by simp
    qed
    show "m - m div 4 = e"
    proof (cases "yd < 365")
      case True
      then show ?thesis using cyc div4_small [of e] by (simp add: m_def)
    next
      case False
      with yrc65 have "yd = 365" by simp
      with leap have "e = 3" by simp
      with False show ?thesis by (simp add: m_def)
    qed
    show "400 * a + 100 * b + 4 * c + e + 1 = y"
      using cyc(1) by linarith
  qed simp_all
qed

lemma yearDay_Date:
  assumes "0 \<le> yd" "yd < (if isLeap y then 366 else 365)"
  shows "yearDay (daysSinceEpoch y + yd) = (y, yd)"
proof -
  obtain a b c e where cyc: "y - 1 = 400 * a + 100 * b + 4 * c + e"
    "0 \<le> b" "b \<le> 3" "0 \<le> c" "c \<le> 24" "0 \<le> e" "e \<le> 3"
    by (rule year_cycles)
  show ?thesis
    using yearDay_cycles [OF cyc assms] dse_cycles [OF cyc] by simp
qed

lemma yearDay_sound:
  "case yearDay d of (y, yd) \<Rightarrow>
     daysSinceEpoch y + yd = d \<and> 0 \<le> yd \<and> yd < (if isLeap y then 366 else 365)"
proof -
  define a where "a = d div 146097"
  define ra where "ra = d mod 146097"
  define n where "n = ra div 36524"
  define sa where "sa = ra mod 36524"
  define b where "b = n - n div 4"
  define rb where "rb = ra - 36524 * b"
  define c where "c = rb div 1461"
  define rc where "rc = rb mod 1461"
  define m where "m = rc div 365"
  define sc where "sc = rc mod 365"
  define e where "e = m - m div 4"
  define yd where "yd = rc - 365 * e"
  define y where "y = 400 * a + 100 * b + 4 * c + e + 1"
  have d: "d = 146097 * a + ra" by (simp add: a_def ra_def)
  have ra: "0 \<le> ra" "ra < 146097" by (simp_all add: ra_def)
  have ra_eq: "ra = 36524 * n + sa" by (simp add: n_def sa_def)
  have sa: "0 \<le> sa" "sa < 36524" by (simp_all add: sa_def)
  have n: "0 \<le> n" "n \<le> 4" using ra ra_eq sa by linarith+
  have b: "b = (if n = 4 then 3 else n)"
    unfolding b_def using n by (rule div4_small)
  have bb: "0 \<le> b" "b \<le> 3" using b n by (auto split: if_splits)
  have rb: "0 \<le> rb" "rb \<le> 36524" "rb = 36524 \<Longrightarrow> b = 3"
    using b n ra ra_eq sa by (auto simp: rb_def split: if_splits)
  have rb_eq: "rb = 1461 * c + rc" by (simp add: c_def rc_def)
  have rc: "0 \<le> rc" "rc < 1461" by (simp_all add: rc_def)
  have cb: "0 \<le> c" "c \<le> 24" using rb rb_eq rc by linarith+
  have rc_eq: "rc = 365 * m + sc" by (simp add: m_def sc_def)
  have sc: "0 \<le> sc" "sc < 365" by (simp_all add: sc_def)
  have m: "0 \<le> m" "m \<le> 4" using rc rc_eq sc by linarith+
  have e: "e = (if m = 4 then 3 else m)"
    unfolding e_def using m by (rule div4_small)
  have eb: "0 \<le> e" "e \<le> 3" using e m by (auto split: if_splits)
  have yd: "0 \<le> yd" "yd \<le> 365" "yd = 365 \<Longrightarrow> e = 3 \<and> rc = 1460"
    using e m rc rc_eq sc by (auto simp: yd_def split: if_splits)
  have cyc: "y - 1 = 400 * a + 100 * b + 4 * c + e" by (simp add: y_def)
  have yD: "yearDay d = (y, yd)"
    by (rule yearDayI [where qa = a and ra = ra and n = n and qb = b and rb = rb
          and qc = c and rc = rc and m = m and qe = e])
      (simp_all add: a_def ra_def n_def b_def rb_def c_def rc_def m_def e_def yd_def y_def
        minus_mult_div_eq_mod)
  have "daysSinceEpoch y = 146097 * a + 36524 * b + 1461 * c + 365 * e"
    using cyc bb cb eb by (rule dse_cycles)
  then have sum: "daysSinceEpoch y + yd = d"
    using d rb_eq by (simp add: yd_def rb_def)
  have "isLeap y" if "yd = 365"
  proof -
    from that yd have "e = 3" "rc = 1460" by simp_all
    moreover have "b = 3" if "c = 24"
      using that \<open>rc = 1460\<close> rb_eq rb(3) by simp
    ultimately show ?thesis
      using isLeap_cycles [OF cyc bb cb eb] by simp
  qed
  with yd have "yd < (if isLeap y then 366 else 365)"
    by (cases "yd = 365") auto
  with yD sum yd(1) show ?thesis by simp
qed

lemma month_index_cases:
  fixes k :: int
  assumes "0 \<le> k" "k \<le> 11"
  shows "k = 0 \<or> k = 1 \<or> k = 2 \<or> k = 3 \<or> k = 4 \<or> k = 5 \<or> k = 6 \<or> k = 7
    \<or> k = 8 \<or> k = 9 \<or> k = 10 \<or> k = 11"
  using assms by arith

lemma daysBefore_table:
  assumes "0 \<le> k" "k \<le> 11"
  shows "31 * (k - 1) \<le> daysBefore k" "daysBefore (k + 1) \<le> 31 * k + 31"
    "daysBefore k < daysBefore (k + 1)" "0 \<le> daysBefore k" "daysBefore (k + 1) \<le> 365"
    "k \<le> 1 \<Longrightarrow> daysBefore (k + 1) \<le> 59" "2 \<le> k \<Longrightarrow> 59 \<le> daysBefore k"
  using month_index_cases [OF assms] by (auto simp: daysBefore_def)

lemma month_lookup:
  assumes k: "0 \<le> k" "k \<le> 11" and day: "daysBefore k \<le> day" "day < daysBefore (k + 1)"
  shows "monthOf day = (k + 1, day - daysBefore k + 1)"
proof (cases "day < 31 * k")
  case True
  have "day div 31 = k - 1"
    by (rule int_div_pos_eq [where r = "day - 31 * k + 31"])
      (use True day daysBefore_table(1) [OF k] in simp_all)
  then show ?thesis using day by (simp add: monthOf_def Let_def)
next
  case False
  have "day div 31 = k"
    by (rule int_div_pos_eq [where r = "day - 31 * k"])
      (use False day daysBefore_table(2) [OF k] in simp_all)
  then show ?thesis using day by (simp add: monthOf_def Let_def)
qed

lemma month_index_exists:
  assumes "0 \<le> day" "day < 365"
  obtains k where "0 \<le> k" "k \<le> 11" "daysBefore k \<le> day" "day < daysBefore (k + 1)"
proof -
  from assms consider "day < 31" | "31 \<le> day \<and> day < 59" | "59 \<le> day \<and> day < 90"
    | "90 \<le> day \<and> day < 120" | "120 \<le> day \<and> day < 151" | "151 \<le> day \<and> day < 181"
    | "181 \<le> day \<and> day < 212" | "212 \<le> day \<and> day < 243" | "243 \<le> day \<and> day < 273"
    | "273 \<le> day \<and> day < 304" | "304 \<le> day \<and> day < 334" | "334 \<le> day \<and> day < 365"
    by linarith
  then show thesis
  proof cases
    case 1 with assms show ?thesis by (intro that [of 0]) (simp_all add: daysBefore_def)
  next
    case 2 then show ?thesis by (intro that [of 1]) (simp_all add: daysBefore_def)
  next
    case 3 then show ?thesis by (intro that [of 2]) (simp_all add: daysBefore_def)
  next
    case 4 then show ?thesis by (intro that [of 3]) (simp_all add: daysBefore_def)
  next
    case 5 then show ?thesis by (intro that [of 4]) (simp_all add: daysBefore_def)
  next
    case 6 then show ?thesis by (intro that [of 5]) (simp_all add: daysBefore_def)
  next
    case 7 then show ?thesis by (intro that [of 6]) (simp_all add: daysBefore_def)
  next
    case 8 then show ?thesis by (intro that [of 7]) (simp_all add: daysBefore_def)
  next
    case 9 then show ?thesis by (intro that [of 8]) (simp_all add: daysBefore_def)
  next
    case 10 then show ?thesis by (intro that [of 9]) (simp_all add: daysBefore_def)
  next
    case 11 then show ?thesis by (intro that [of 10]) (simp_all add: daysBefore_def)
  next
    case 12 then show ?thesis by (intro that [of 11]) (simp_all add: daysBefore_def)
  qed
qed

lemma monthDay_sound:
  assumes "0 \<le> yd" "yd < (if leap then 366 else 365)"
  shows "case monthDay leap yd of (m, dd) \<Rightarrow>
           1 \<le> m \<and> m \<le> 12 \<and> 1 \<le> dd
           \<and> daysBefore (m - 1) + (if leap \<and> 3 \<le> m then 1 else 0) + (dd - 1) = yd"
proof (cases "leap \<and> yd = 59")
  case True
  then show ?thesis by (simp add: monthDay_def daysBefore_def)
next
  case False
  define day where "day = (if leap \<and> yd > 59 then yd - 1 else yd)"
  have day: "0 \<le> day" "day < 365"
    using assms False by (auto simp: day_def split: if_splits)
  then obtain k where k: "0 \<le> k" "k \<le> 11"
    and kd: "daysBefore k \<le> day" "day < daysBefore (k + 1)"
    by (rule month_index_exists)
  have md: "monthDay leap yd = (k + 1, day - daysBefore k + 1)"
    using False month_lookup [OF k kd] unfolding monthDay_def day_def by auto
  have adj: "(if leap \<and> 3 \<le> k + 1 then 1 else 0) + day = yd"
  proof (cases "leap \<and> yd > 59")
    case True
    then have "59 \<le> day" by (simp add: day_def)
    with kd daysBefore_table(6) [OF k] have "2 \<le> k" by linarith
    with True show ?thesis by (simp add: day_def)
  next
    case no: False
    show ?thesis
    proof (cases leap)
      case True
      with no False have "day < 59" by (simp add: day_def)
      with kd daysBefore_table(7) [OF k] have "k \<le> 1" by linarith
      with no show ?thesis by (simp add: day_def)
    next
      case False
      then show ?thesis by (simp add: day_def)
    qed
  qed
  show ?thesis
    unfolding md using k kd adj by simp
qed

lemma monthDay_inverse:
  assumes m: "1 \<le> m" "m \<le> 12"
    and dd: "1 \<le> dd" "dd \<le> (if m = 2 \<and> leap then 29 else daysBefore m - daysBefore (m - 1))"
  defines "yd \<equiv> daysBefore (m - 1) + (if leap \<and> 3 \<le> m then 1 else 0) + (dd - 1)"
  shows "monthDay leap yd = (m, dd)" "0 \<le> yd" "yd < (if leap then 366 else 365)"
proof -
  have k: "0 \<le> m - 1" "m - 1 \<le> 11" using m by simp_all
  note tab = daysBefore_table [OF k, simplified]
  have feb: "daysBefore 1 = 31" "daysBefore 2 = 59" by (simp_all add: daysBefore_def)
  show yd0: "0 \<le> yd" using tab(4) dd(1) by (simp add: yd_def)
  show "yd < (if leap then 366 else 365)"
    using tab(5) dd feb by (auto simp: yd_def split: if_splits)
  show "monthDay leap yd = (m, dd)"
  proof (cases "leap \<and> yd = 59")
    case True
    have "m = 2"
    proof (rule ccontr)
      assume "m \<noteq> 2"
      with m consider "m = 1" | "3 \<le> m" by linarith
      then show False
      proof cases
        case 1
        with True dd show ?thesis by (simp add: yd_def daysBefore_def)
      next
        case 2
        with tab(7) True dd show ?thesis by (auto simp: yd_def)
      qed
    qed
    with True have "dd = 29" by (simp add: yd_def feb)
    with True \<open>m = 2\<close> show ?thesis by (simp add: monthDay_def)
  next
    case False
    define day where "day = (if leap \<and> yd > 59 then yd - 1 else yd)"
    have day_eq: "day = daysBefore (m - 1) + dd - 1"
    proof (cases "leap \<and> 3 \<le> m")
      case True
      with tab(7) dd have "yd > 59" by (simp add: yd_def)
      with True show ?thesis by (simp add: day_def yd_def)
    next
      case nl: False
      show ?thesis
      proof (cases leap)
        case True
        with nl have "m \<le> 2" by simp
        with tab(6) dd True feb have "yd \<le> 59"
          by (cases "m = 2") (auto simp: yd_def)
        with nl show ?thesis by (simp add: day_def yd_def)
      next
        case False
        then show ?thesis by (simp add: day_def yd_def)
      qed
    qed
    have le29: "dd \<le> daysBefore m - daysBefore (m - 1)"
    proof (cases "m = 2 \<and> leap")
      case True
      with False have "dd \<noteq> 29" by (auto simp: yd_def feb)
      with True dd show ?thesis by (simp add: feb)
    next
      case False
      with dd show ?thesis by auto
    qed
    have kd: "daysBefore (m - 1) \<le> day" "day < daysBefore (m - 1 + 1)"
      using dd(1) le29 by (simp_all add: day_eq)
    have "monthOf day = (m, dd)"
      using month_lookup [OF k kd] by (simp add: day_eq)
    moreover have "monthDay leap yd = monthOf day"
      using False unfolding monthDay_def day_def by auto
    ultimately show ?thesis by simp
  qed
qed

lemma civilDays_valid:
  assumes "1 \<le> m" "m \<le> 12"
  shows "civilDays y m d =
     daysSinceEpoch y + daysBefore (m - 1) + (if isLeap y \<and> 3 \<le> m then 1 else 0) + (d - 1)"
proof -
  have "(m - 1) div 12 = 0" "(m - 1) mod 12 = m - 1" using assms by simp_all
  then show ?thesis by (simp add: civilDays_def Let_def)
qed

lemma civilDays_add: "civilDays y m (d + k) = civilDays y m d + k"
  by (simp add: civilDays_def Let_def)

lemma absDate_civilDays:
  assumes m: "1 \<le> m" "m \<le> 12" and d: "1 \<le> d" "d \<le> daysIn m y"
  shows "absDate (civilDays y m d) = (y, m, d)"
proof -
  define yd where "yd = daysBefore (m - 1) + (if isLeap y \<and> 3 \<le> m then 1 else 0) + (d - 1)"
  have d': "d \<le> (if m = 2 \<and> isLeap y then 29 else daysBefore m - daysBefore (m - 1))"
    using d(2) by (simp add: daysIn_def)
  note inv = monthDay_inverse [OF m d(1) d', folded yd_def]
  have "civilDays y m d = daysSinceEpoch y + yd"
    using civilDays_valid [OF m] by (simp add: yd_def)
  moreover have "yearDay (daysSinceEpoch y + yd) = (y, yd)"
    using inv(2,3) by (rule yearDay_Date)
  ultimately show ?thesis using inv(1) by (simp add: absDate_def)
qed

lemma civilDays_absDate:
  assumes "absDate n = (y, m, d)"
  shows "civilDays y m d = n" "1 \<le> m" "m \<le> 12" "1 \<le> d"
proof -
  obtain y' yd where yD: "yearDay n = (y', yd)" by (cases "yearDay n")
  obtain m' d' where mD: "monthDay (isLeap y') yd = (m', d')"
    by (cases "monthDay (isLeap y') yd")
  from assms yD mD have eq: "y' = y" "m' = m" "d' = d" by (simp_all add: absDate_def)
  from yearDay_sound [of n] yD
  have ys: "daysSinceEpoch y' + yd = n" "0 \<le> yd" "yd < (if isLeap y' then 366 else 365)"
    by simp_all
  from monthDay_sound [OF ys(2,3)] mD
  have ms: "1 \<le> m'" "m' \<le> 12" "1 \<le> d'"
    "daysBefore (m' - 1) + (if isLeap y' \<and> 3 \<le> m' then 1 else 0) + (d' - 1) = yd"
    by simp_all
  show "1 \<le> m" "m \<le> 12" "1 \<le> d" using ms eq by simp_all
  then show "civilDays y m d = n"
    using civilDays_valid [of m y d] ms(4) ys(1) eq by simp
qed

subsection \<open>Instants, their fields and the three windows\<close>

lemma absDate_fields: "absDate (t div secondsPerDay) = (Year t, Month t, Day t)"
  by (simp add: Year_def Month_def Day_def split: prod.splits)

lemma Clock_sum:
  assumes "Clock t = (h, mi, s)"
  shows "h * 3600 + mi * 60 + s = t mod secondsPerDay"
  using assms by (auto simp: Clock_def Let_def)

lemma Date_fields:
  "Date (Year t) (Month t) (Day t + k) h mi s =
     (t div secondsPerDay + k) * secondsPerDay + h * 3600 + mi * 60 + s"
proof -
  have "civilDays (Year t) (Month t) (Day t) = t div secondsPerDay"
    using absDate_fields by (rule civilDays_absDate(1))
  then show ?thesis
    by (simp add: Date_def civilDays_add)
qed

lemma AddDate_days: "AddDate t 0 0 k = t + k * secondsPerDay"
proof -
  obtain h mi s where c: "Clock t = (h, mi, s)" by (cases "Clock t")
  have "AddDate t 0 0 k = (t div secondsPerDay + k) * secondsPerDay + (h * 3600 + mi * 60 + s)"
    using c Date_fields [of t k h mi s] by (simp add: AddDate_def)
  also have "\<dots> = (t div secondsPerDay + k) * secondsPerDay + t mod secondsPerDay"
    using Clock_sum [OF c] by simp
  also have "\<dots> = t + k * secondsPerDay"
    by (simp add: algebra_simps)
  finally show ?thesis .
qed

lemma Weekday_days: "Weekday t = (t div secondsPerDay + 1) mod 7"
proof -
  define n where "n = t div 86400"
  define r where "r = t mod 86400"
  define q where "q = (n + 1) div 7"
  define w where "w = (n + 1) mod 7"
  have t: "t = 86400 * n + r" by (simp add: n_def r_def)
  have r: "0 \<le> r" "r < 86400" by (simp_all add: r_def)
  have n: "n + 1 = 7 * q + w" by (simp add: q_def w_def)
  have w: "0 \<le> w" "w < 7" by (simp_all add: w_def)
  have "(t + 86400) mod 604800 = 86400 * w + r"
    by (rule int_mod_pos_eq [where q = q]) (use t n r w in linarith)+
  moreover have "(86400 * w + r) div 86400 = w"
    by (rule int_div_pos_eq [where r = r]) (use r in linarith)+
  ultimately show ?thesis
    by (simp add: Weekday_def secondsPerDay_def n_def w_def)
qed

lemma midnight: "Date (Year t) (Month t) (Day t) 0 0 0 = t div secondsPerDay * secondsPerDay"
  using Date_fields [of t 0 0 0 0] by simp

lemma Date_first:
  assumes "1 \<le> m" "m \<le> 12"
  shows "Year (Date y m 1 0 0 0) = y" "Month (Date y m 1 0 0 0) = m"
    "Day (Date y m 1 0 0 0) = 1" "Clock (Date y m 1 0 0 0) = (0, 0, 0)"
proof -
  have "1 \<le> daysIn m y"
    using daysBefore_table(3) [of "m - 1"] assms by (simp add: daysIn_def)
  with assms have "absDate (civilDays y m 1) = (y, m, 1)"
    by (intro absDate_civilDays) simp_all
  moreover have "Date y m 1 0 0 0 div secondsPerDay = civilDays y m 1"
    by (simp add: Date_def secondsPerDay_def)
  ultimately show "Year (Date y m 1 0 0 0) = y" "Month (Date y m 1 0 0 0) = m"
    "Day (Date y m 1 0 0 0) = 1"
    by (simp_all add: Year_def Month_def Day_def)
  show "Clock (Date y m 1 0 0 0) = (0, 0, 0)"
    by (simp add: Clock_def Date_def secondsPerDay_def)
qed

lemma Month_range: "1 \<le> Month t" "Month t \<le> 12"
  using civilDays_absDate(2,3) [OF absDate_fields] by simp_all

lemma Date_month_overflow:
  "Date y 13 1 0 0 0 = Date (y + 1) 1 1 0 0 0" "Date y 0 1 0 0 0 = Date (y - 1) 12 1 0 0 0"
  by (simp_all add: Date_def civilDays_def)

lemma dateRanges_day:
  "dateRanges ''day'' t =
     (let s = t div secondsPerDay * secondsPerDay
      in Inr (s, s + secondsPerDay, s - secondsPerDay, s))"
  by (simp add: dateRanges_def Let_def AddDate_days midnight)

lemma div_days_shift: "(t - k * secondsPerDay) div secondsPerDay = t div secondsPerDay - k"
  using div_mult_self1 [of secondsPerDay t "- k"] by (simp add: secondsPerDay_def)

lemma dateRanges_week:
  "dateRanges ''week'' t =
     (let w = (if Weekday t = 0 then 7 else Weekday t);
          s = (t div secondsPerDay - (w - 1)) * secondsPerDay
      in Inr (s, s + 7 * secondsPerDay, s - 7 * secondsPerDay, s))"
proof -
  define w where "w = (if Weekday t = 0 then 7 else Weekday t)"
  have "AddDate t 0 0 (- (w - 1)) = t - (w - 1) * secondsPerDay"
    by (simp add: AddDate_days algebra_simps)
  moreover have "(t - (w - 1) * secondsPerDay) div secondsPerDay = t div secondsPerDay - (w - 1)"
    by (rule div_days_shift)
  ultimately show ?thesis
    unfolding dateRanges_def Let_def w_def [symmetric]
    by (simp add: midnight AddDate_days)
qed

lemma dateRanges_month:
  "dateRanges ''month'' t =
     (let y = Year t; m = Month t
      in Inr (Date y m 1 0 0 0,
              Date (if m = 12 then y + 1 else y) (if m = 12 then 1 else m + 1) 1 0 0 0,
              Date (if m = 1 then y - 1 else y) (if m = 1 then 12 else m - 1) 1 0 0 0,
              Date y m 1 0 0 0))"
proof -
  note f = Date_first [OF Month_range, of "Year t" t]
  have "AddDate (Date (Year t) (Month t) 1 0 0 0) 0 k 0 = Date (Year t) (Month t + k) 1 0 0 0" for k
    by (simp add: AddDate_def f)
  then show ?thesis
    by (simp add: dateRanges_def Let_def Date_month_overflow)
qed

lemma Parse_example: "Parse ''2024-01-15'' = Inr (Date 2024 1 15 0 0 0)"
  by (simp add: Parse_def isDigit_def digitValue_def daysIn_def daysBefore_def Let_def)

lemma Date_example:
  "Year (Date 2024 1 15 0 0 0) = 2024" "Month (Date 2024 1 15 0 0 0) = 1"
proof -
  have "absDate (civilDays 2024 1 15) = (2024, 1, 15)"
    by (rule absDate_civilDays) (simp_all add: daysIn_def daysBefore_def)
  moreover have "Date 2024 1 15 0 0 0 div secondsPerDay = civilDays 2024 1 15"
    by (simp add: Date_def secondsPerDay_def)
  ultimately show "Year (Date 2024 1 15 0 0 0) = 2024" "Month (Date 2024 1 15 0 0 0) = 1"
    by (simp_all add: Year_def Month_def)
qed

lemma Weekday_range: "0 \<le> Weekday t" "Weekday t < 7"
  by (simp_all add: Weekday_days)

lemma Weekday_monday:
  assumes "w = (if Weekday t = 0 then 7 else Weekday t)"
  shows "Weekday ((t div secondsPerDay - (w - 1)) * secondsPerDay) = 1"
proof -
  define n where "n = t div secondsPerDay"
  define q where "q = (n + 1) div 7"
  have n: "n + 1 = 7 * q + Weekday t"
    by (simp add: Weekday_days n_def q_def)
  have "(n - (w - 1)) * secondsPerDay div secondsPerDay = n - (w - 1)"
    by (simp add: secondsPerDay_def)
  then have "Weekday ((n - (w - 1)) * secondsPerDay) = (n - (w - 1) + 1) mod 7"
    by (simp only: Weekday_days)
  also have "\<dots> = 1"
  proof (cases "Weekday t = 0")
    case True
    with assms n have "n - (w - 1) + 1 = 1 + 7 * (q - 1)" by simp
    then show ?thesis by (simp only: mod_mult_self2) simp
  next
    case False
    with assms n have "n - (w - 1) + 1 = 1 + 7 * q" by simp
    then show ?thesis by (simp only: mod_mult_self2) simp
  qed
  finally show ?thesis by (simp add: n_def)
qed

lemma Clock_midnight: "Clock (n * secondsPerDay) = (0, 0, 0)"
  by (simp add: Clock_def secondsPerDay_def)

lemma Date_numeral_example:
  "Date 2024 1 14 0 0 0 = 63840787200" "Date 2024 1 8 0 0 0 = 63840268800"
  "Date 2024 1 15 0 0 0 = 63840873600" "Date 2024 1 1 0 0 0 = 63839664000"
  by (simp_all add: Date_def civilDays_def daysSinceEpoch_def daysBefore_def isLeap_def
      secondsPerDay_def Let_def)

lemma dateRanges_month_example:
  "dateRanges ''month'' (Date 2024 1 15 0 0 0) =
     Inr (Date 2024 1 1 0 0 0, Date 2024 2 1 0 0 0, Date 2023 12 1 0 0 0, Date 2024 1 1 0 0 0)"
  by (simp add: dateRanges_month Date_example)

section \<open>The handler\<close>

subsection \<open>The loop, the failures and the three statements\<close>

lemma trendsLoop_scanned:
  "trendsLoop db u period prevSpending (map Inr rows) = map (trendOf db u period prevSpending) rows"
  by (induction rows) simp_all

lemma trendsLoop_row:
  "tr \<in> set (trendsLoop db u period prevSpending rows) \<Longrightarrow>
     \<exists>row. Inr row \<in> set rows \<and> tr = trendOf db u period prevSpending row"
  by (induction db u period prevSpending rows rule: trendsLoop.induct) auto

lemma trendsLoop_member:
  assumes "tr \<in> set (trendsLoop db u period prevSpending rows)"
  obtains row where "Inr row \<in> set rows" "tr = trendOf db u period prevSpending row"
  using trendsLoop_row [OF assms] by blast

lemma trendOf_fields:
  "CategoryID (trendOf db u period prevSpending (cid, name, cur)) = cid"
  "CategoryName (trendOf db u period prevSpending (cid, name, cur)) = name"
  "CurrentSpend (trendOf db u period prevSpending (cid, name, cur)) = cur"
  by (simp_all add: trendOf_def Let_def)


lemma trendOf_fallback:
  assumes "getHistoricalAverage db u cid period = Inl err"
  shows "PredictedSpend (trendOf db u period prevSpending (cid, name, cur)) =
     calculatePrediction cur (prevAmountOf prevSpending cid) cur period"
  using assms by (simp add: trendOf_def Let_def)

lemma trendsLoop_fallback:
  assumes "tr \<in> set (trendsLoop db u period prevSpending rows)"
    and "getHistoricalAverage db u (CategoryID tr) period = Inl err"
  shows "PredictedSpend tr =
     calculatePrediction (CurrentSpend tr) (prevAmountOf prevSpending (CategoryID tr))
       (CurrentSpend tr) period"
proof -
  from assms(1) obtain row where "tr = trendOf db u period prevSpending row"
    by (rule trendsLoop_member)
  moreover obtain cid name cur where "row = (cid, name, cur)"
    by (cases row)
  ultimately have tr: "tr = trendOf db u period prevSpending (cid, name, cur)"
    by simp
  with assms(2) have "getHistoricalAverage db u cid period = Inl err"
    by (simp add: trendOf_fields)
  then show ?thesis
    unfolding tr trendOf_fields by (rule trendOf_fallback)
qed

lemma calculateSpendingTrends_rows:
  assumes "Parse dateStr = Inr date" "dateRanges period date = Inr (s, e, ps, pe)"
    and "Query_current db u s e = Inr rows" "Query_prev db u ps pe = Inr prevRows"
  shows "calculateSpendingTrends db u period dateStr =
     Inr (trendsLoop db u period (storePrev Map.empty prevRows) rows)"
  using assms by (simp add: calculateSpendingTrends_def)

lemma avgQuery_none:
  assumes "\<forall>t \<in> set (transactions st).
      \<not> (tx_UserID t = u \<and> tx_CategoryID t = cid \<and> tx_Type t = ''expense''
         \<and> tx_Date t \<ge> NOW st - days * secondsPerDay)"
  shows "avgQuery st u cid days = 0"
proof -
  have "filter (\<lambda>t. tx_UserID t = u \<and> tx_CategoryID t = cid \<and> tx_Type t = ''expense''
                   \<and> tx_Date t \<ge> NOW st - days * secondsPerDay) (transactions st) = []"
    using assms by (simp add: filter_empty_conv)
  then show ?thesis
    by (simp add: avgQuery_def)
qed

lemma getHistoricalAverage_store:
  assumes "(period, days) \<in> {(''day'', 30), (''week'', 84), (''month'', 365)}"
  shows "getHistoricalAverage (storeDB st) u cid period = Inr (avgQuery st u cid days)"
  using assms by (auto simp: getHistoricalAverage_def storeDB_def)



lemma groupAmount_zero:
  assumes "\<forall>c \<in> set cs. joined st u s e c = []"
  shows "groupAmount st u s e cs = 0"
  using assms by (induction cs) (simp_all add: groupAmount_def)

lemma joined_empty:
  assumes "\<forall>t \<in> set (transactions st).
      \<not> (tx_CategoryID t = cid \<and> tx_UserID t = u \<and> tx_Type t = ''expense''
         \<and> s \<le> tx_Date t \<and> tx_Date t < e)"
    and "cat_ID c = cid"
  shows "joined st u s e c = []"
  using assms by (auto simp: joined_def filter_empty_conv)

lemma currentQuery_member:
  assumes "c \<in> set (categories st)" "cat_UserID c = u" "cat_Type c = ''expense''"
  shows "(cat_ID c, cat_Name c,
          groupAmount st u s e
            (filter (\<lambda>c'. cat_ID c' = cat_ID c \<and> cat_Name c' = cat_Name c)
               (expenseCategories st u)))
         \<in> set (currentQuery st u s e)"
proof -
  have "c \<in> set (expenseCategories st u)"
    using assms by (simp add: expenseCategories_def)
  then have "(cat_ID c, cat_Name c)
      \<in> set (remdups (map (\<lambda>c. (cat_ID c, cat_Name c)) (expenseCategories st u)))"
    by force
  then show ?thesis
    unfolding currentQuery_def Let_def set_sort set_map
    by (rule rev_image_eqI) simp
qed

lemma calculateSpendingTrends_store:
  assumes "Parse dateStr = Inr date" "dateRanges period date = Inr (s, e, ps, pe)"
  shows "calculateSpendingTrends (storeDB st) u period dateStr =
     Inr (map (trendOf (storeDB st) u period
                 (storePrev Map.empty (map Inr (prevQuery st u ps pe))))
            (currentQuery st u s e))"
proof -
  have "Query_current (storeDB st) u s e = Inr (map Inr (currentQuery st u s e))"
    "Query_prev (storeDB st) u ps pe = Inr (map Inr (prevQuery st u ps pe))"
    by (simp_all add: storeDB_def)
  with assms show ?thesis
    by (simp add: calculateSpendingTrends_rows trendsLoop_scanned)
qed






subsection \<open>The sample data evaluated\<close>

lemma sample_month:
  "dateRanges ''month'' (Date 2024 1 15 0 0 0) =
     Inr (Date 2024 1 1 0 0 0, Date 2024 2 1 0 0 0, Date 2023 12 1 0 0 0, Date 2024 1 1 0 0 0)"
  by (rule dateRanges_month_example)


lemma sample_categories:
  "\<lparr>cat_ID = 1, cat_UserID = 7, cat_Name = ''Food'', cat_Type = ''expense''\<rparr>
     \<in> set (categories sampleStore)"
  by (simp add: sampleStore_def)

lemma sample_no_food:
  "\<forall>t \<in> set (transactions sampleStore).
     \<not> (tx_CategoryID t = 1 \<and> tx_UserID t = 7 \<and> tx_Type t = ''expense''
        \<and> Date 2024 1 1 0 0 0 \<le> tx_Date t \<and> tx_Date t < Date 2024 2 1 0 0 0)"
  by (simp add: sampleStore_def)

lemma sample_no_recent_food:
  "\<forall>t \<in> set (transactions sampleStore).
     \<not> (tx_UserID t = 7 \<and> tx_CategoryID t = 1 \<and> tx_Type t = ''expense''
        \<and> tx_Date t \<ge> NOW sampleStore - 365 * secondsPerDay)"
  by (simp add: sampleStore_def)

lemma failingAvg_fails:
  "getHistoricalAverage failingAvg 7 cid ''month'' = Inl (QueryError ''connection refused'')"
  by (simp add: getHistoricalAverage_def failingAvg_def)

lemma failingAvg_rows:
  "Query_current failingAvg 7 (Date 2024 1 1 0 0 0) (Date 2024 2 1 0 0 0)
     = Inr [Inr (2, ''Rent'', 100), Inr (1, ''Food'', 0)]"
  "Query_prev failingAvg 7 (Date 2023 12 1 0 0 0) (Date 2024 1 1 0 0 0)
     = Inr [Inr (1, 0), Inr (2, 80)]"
  by code_simp+

lemma failingAvg_loop:
  "trendsLoop failingAvg 7 ''month'' (storePrev Map.empty [Inr (1, 0), Inr (2, 80)])
      [Inr (2, ''Rent'', 100), Inr (1, ''Food'', 0)] =
     [\<lparr>CategoryID = 2, CategoryName = ''Rent'', CurrentSpend = 100, PredictedSpend = 68,
       TrendDirection = ''up'', ChangePercent = 25\<rparr>,
      \<lparr>CategoryID = 1, CategoryName = ''Food'', CurrentSpend = 0, PredictedSpend = 0,
       TrendDirection = ''new'', ChangePercent = 0\<rparr>]"
  by code_simp


lemma samplePrev_amounts:
  "prevAmountOf samplePrev 2 = 80" "prevAmountOf samplePrev 1 = 0"
  "prevAmountOf (storePrev Map.empty [Inr (1, 0), Inr (2, 80)]) 2 = 80"
  by (simp_all add: samplePrev_def prevAmountOf_def)




section \<open>Properties\<close>




text \<open>
  C3. For each of the periods day, week and month and every reference instant the end of
  the previous window is the start of the current one, and both windows have the same
  calendar length: one day, seven days, or one calendar month each, the current window
  running from the first of the reference month to the first of the next month and the
  previous one from the first of the month before. For the reference date 2024-01-15 the
  month windows are 2024-01-01 to 2024-02-01 and 2023-12-01 to 2024-01-01. The store joins
  the transactions from the start of a window on and before its end.
\<close>

theorem C3_windows:
  "dateRanges ''day'' t =
     (let s = t div secondsPerDay * secondsPerDay
      in Inr (s, s + secondsPerDay, s - secondsPerDay, s))
   \<and> dateRanges ''week'' t =
     (let w = (if Weekday t = 0 then 7 else Weekday t);
          s = (t div secondsPerDay - (w - 1)) * secondsPerDay
      in Inr (s, s + 7 * secondsPerDay, s - 7 * secondsPerDay, s))
   \<and> (let y = Year t; m = Month t;
           s = Date y m 1 0 0 0;
           e = Date (if m = 12 then y + 1 else y) (if m = 12 then 1 else m + 1) 1 0 0 0;
           ps = Date (if m = 1 then y - 1 else y) (if m = 1 then 12 else m - 1) 1 0 0 0
       in dateRanges ''month'' t = Inr (s, e, ps, s)
          \<and> (Year s, Month s, Day s) = (y, m, 1)
          \<and> (Year e, Month e, Day e)
              = (if m = 12 then y + 1 else y, if m = 12 then 1 else m + 1, 1)
          \<and> (Year ps, Month ps, Day ps)
              = (if m = 1 then y - 1 else y, if m = 1 then 12 else m - 1, 1))
   \<and> Parse ''2024-01-15'' = Inr (Date 2024 1 15 0 0 0)
   \<and> dateRanges ''month'' (Date 2024 1 15 0 0 0) =
       Inr (Date 2024 1 1 0 0 0, Date 2024 2 1 0 0 0, Date 2023 12 1 0 0 0, Date 2024 1 1 0 0 0)
   \<and> set (joined st u start end c) =
       {x \<in> set (transactions st). cat_ID c = tx_CategoryID x \<and> tx_UserID x = u
          \<and> tx_Type x = ''expense'' \<and> start \<le> tx_Date x \<and> tx_Date x < end}"
proof -
  note r = Month_range [of t]
  have "(let y = Year t; m = Month t;
           s = Date y m 1 0 0 0;
           e = Date (if m = 12 then y + 1 else y) (if m = 12 then 1 else m + 1) 1 0 0 0;
           ps = Date (if m = 1 then y - 1 else y) (if m = 1 then 12 else m - 1) 1 0 0 0
       in dateRanges ''month'' t = Inr (s, e, ps, s)
          \<and> (Year s, Month s, Day s) = (y, m, 1)
          \<and> (Year e, Month e, Day e)
              = (if m = 12 then y + 1 else y, if m = 12 then 1 else m + 1, 1)
          \<and> (Year ps, Month ps, Day ps)
              = (if m = 1 then y - 1 else y, if m = 1 then 12 else m - 1, 1))"
    using r by (simp add: dateRanges_month Let_def Date_first)
  moreover have "set (joined st u start end c) =
       {x \<in> set (transactions st). cat_ID c = tx_CategoryID x \<and> tx_UserID x = u
          \<and> tx_Type x = ''expense'' \<and> start \<le> tx_Date x \<and> tx_Date x < end}"
    by (auto simp: joined_def)
  ultimately show ?thesis
    using dateRanges_day dateRanges_week Parse_example dateRanges_month_example by blast
qed

text \<open>
  C4. For the period week the current window starts at midnight of the Monday of the week
  that holds the reference instant and ends seven days later; a Sunday counts as day 7, so
  its window starts six days before it.
\<close>

theorem C4_week_start:
  "(let w = (if Weekday t = 0 then 7 else Weekday t);
        s = (t div secondsPerDay - (w - 1)) * secondsPerDay
    in dateRanges ''week'' t = Inr (s, s + 7 * secondsPerDay, s - 7 * secondsPerDay, s)
       \<and> Weekday s = 1 \<and> Clock s = (0, 0, 0)
       \<and> s \<le> t \<and> t < s + 7 * secondsPerDay
       \<and> (Weekday t = 0 \<longrightarrow> s = (t div secondsPerDay - 6) * secondsPerDay))"
proof -
  define w where "w = (if Weekday t = 0 then 7 else Weekday t)"
  define s where "s = (t div secondsPerDay - (w - 1)) * secondsPerDay"
  have w: "1 \<le> w" "w \<le> 7"
    using Weekday_range [of t] by (auto simp: w_def)
  have t: "t div secondsPerDay * secondsPerDay \<le> t"
    "t < t div secondsPerDay * secondsPerDay + secondsPerDay"
  proof -
    have "t = t div secondsPerDay * secondsPerDay + t mod secondsPerDay" by simp
    moreover have "0 \<le> t mod secondsPerDay" "t mod secondsPerDay < secondsPerDay"
      by (simp_all add: secondsPerDay_def)
    ultimately show "t div secondsPerDay * secondsPerDay \<le> t"
      "t < t div secondsPerDay * secondsPerDay + secondsPerDay"
      by linarith+
  qed
  have s_eq: "s = t div secondsPerDay * secondsPerDay - (w - 1) * secondsPerDay"
    by (simp add: s_def algebra_simps)
  have "dateRanges ''week'' t = Inr (s, s + 7 * secondsPerDay, s - 7 * secondsPerDay, s)"
    by (simp add: dateRanges_week Let_def w_def s_def)
  moreover have "Weekday s = 1"
    unfolding s_def using w_def by (rule Weekday_monday)
  moreover have "Clock s = (0, 0, 0)"
    unfolding s_def by (rule Clock_midnight)
  moreover have "s \<le> t"
    using t(1) w(1) by (simp add: s_eq secondsPerDay_def)
  moreover have "t < s + 7 * secondsPerDay"
    using t(2) w(2) by (simp add: s_eq secondsPerDay_def)
  moreover have "s = (t div secondsPerDay - 6) * secondsPerDay" if "Weekday t = 0"
    using that by (simp add: s_def w_def)
  ultimately show ?thesis
    by (simp add: Let_def w_def s_def)
qed

theorem C4_week_start_witness:
  "Weekday (Date 2024 1 14 0 0 0) = 0
   \<and> dateRanges ''week'' (Date 2024 1 14 0 0 0) =
       Inr (Date 2024 1 8 0 0 0, Date 2024 1 15 0 0 0, Date 2024 1 1 0 0 0, Date 2024 1 8 0 0 0)
   \<and> Weekday (Date 2024 1 8 0 0 0) = 1"
proof -
  have wd: "Weekday (Date 2024 1 14 0 0 0) = 0"
    by (simp add: Weekday_def Date_numeral_example secondsPerDay_def)
  show ?thesis
    using C4_week_start [of "Date 2024 1 14 0 0 0"] wd
    by (simp add: Let_def Date_numeral_example secondsPerDay_def)
qed

text \<open>
  C5. Over a store of categories and transactions, for every owner, period and reference
  date the computation succeeds and lists every expense category of the owner, under its id
  and its name; a category without an expense transaction of the owner in the current
  window is listed with current spend 0.
\<close>

theorem C5_every_expense_category_listed:
  assumes "Parse dateStr = Inr date" and "dateRanges period date = Inr (s, e, ps, pe)"
    and "c \<in> set (categories st)" and "cat_UserID c = u" and "cat_Type c = ''expense''"
  shows "\<exists>trends. calculateSpendingTrends (storeDB st) u period dateStr = Inr trends
     \<and> (\<exists>tr \<in> set trends.
           CategoryID tr = cat_ID c \<and> CategoryName tr = cat_Name c
           \<and> ((\<forall>t \<in> set (transactions st).
                   \<not> (tx_CategoryID t = cat_ID c \<and> tx_UserID t = u \<and> tx_Type t = ''expense''
                      \<and> s \<le> tx_Date t \<and> tx_Date t < e))
                \<longrightarrow> CurrentSpend tr = 0))"
proof -
  define prevSpending where
    "prevSpending = storePrev Map.empty (map Inr (prevQuery st u ps pe))"
  define grp where
    "grp = filter (\<lambda>c'. cat_ID c' = cat_ID c \<and> cat_Name c' = cat_Name c)
             (expenseCategories st u)"
  define tr where
    "tr = trendOf (storeDB st) u period prevSpending
            (cat_ID c, cat_Name c, groupAmount st u s e grp)"
  have run: "calculateSpendingTrends (storeDB st) u period dateStr =
      Inr (map (trendOf (storeDB st) u period prevSpending) (currentQuery st u s e))"
    using assms(1,2) unfolding prevSpending_def by (rule calculateSpendingTrends_store)
  have "(cat_ID c, cat_Name c, groupAmount st u s e grp) \<in> set (currentQuery st u s e)"
    unfolding grp_def using assms(3-5) by (rule currentQuery_member)
  then have mem: "tr \<in> set (map (trendOf (storeDB st) u period prevSpending)
                              (currentQuery st u s e))"
    unfolding tr_def by simp
  have fields: "CategoryID tr = cat_ID c" "CategoryName tr = cat_Name c"
    "CurrentSpend tr = groupAmount st u s e grp"
    by (simp_all add: tr_def trendOf_fields)
  have "groupAmount st u s e grp = 0"
    if "\<forall>t \<in> set (transactions st).
          \<not> (tx_CategoryID t = cat_ID c \<and> tx_UserID t = u \<and> tx_Type t = ''expense''
             \<and> s \<le> tx_Date t \<and> tx_Date t < e)"
  proof (rule groupAmount_zero, rule ballI)
    fix c' assume "c' \<in> set grp"
    then have "cat_ID c' = cat_ID c" by (simp add: grp_def)
    with that show "joined st u s e c' = []" by (rule joined_empty)
  qed
  with run mem fields show ?thesis
    by auto
qed

theorem C5_every_expense_category_listed_witness:
  "\<exists>trends. calculateSpendingTrends (storeDB sampleStore) 7 ''month'' ''2024-01-15'' = Inr trends
     \<and> (\<exists>tr \<in> set trends.
           CategoryID tr = 1 \<and> CategoryName tr = ''Food'' \<and> CurrentSpend tr = 0)"
  using C5_every_expense_category_listed [OF Parse_example sample_month sample_categories]
    sample_no_food
  by simp




text \<open>
  C7. A trend whose historical-average statement fails is predicted with its own current
  spend in place of the average; such a failure never makes the computation fail, which
  returns the loop's trends whenever both window statements answer. Over a store, a
  category without an expense transaction of the owner in the lookback of 30, 84 or 365
  days has the historical average 0.
\<close>

theorem C7_historical_average:
  "(\<forall>tr \<in> set (trendsLoop db u period prevSpending rows).
      \<forall>err. getHistoricalAverage db u (CategoryID tr) period = Inl err \<longrightarrow>
        PredictedSpend tr =
          calculatePrediction (CurrentSpend tr) (prevAmountOf prevSpending (CategoryID tr))
            (CurrentSpend tr) period)
   \<and> (Parse dateStr = Inr date \<and> dateRanges period date = Inr (s, e, ps, pe)
        \<and> Query_current db u s e = Inr rows \<and> Query_prev db u ps pe = Inr prevRows \<longrightarrow>
        calculateSpendingTrends db u period dateStr =
          Inr (trendsLoop db u period (storePrev Map.empty prevRows) rows))
   \<and> ((period, days) \<in> {(''day'', 30), (''week'', 84), (''month'', 365)}
        \<and> (\<forall>t \<in> set (transactions st).
              \<not> (tx_UserID t = u \<and> tx_CategoryID t = cid \<and> tx_Type t = ''expense''
                 \<and> tx_Date t \<ge> NOW st - days * secondsPerDay)) \<longrightarrow>
        getHistoricalAverage (storeDB st) u cid period = Inr 0)"
proof (intro conjI ballI allI impI)
  fix tr err
  assume "tr \<in> set (trendsLoop db u period prevSpending rows)"
    and "getHistoricalAverage db u (CategoryID tr) period = Inl err"
  then show "PredictedSpend tr =
      calculatePrediction (CurrentSpend tr) (prevAmountOf prevSpending (CategoryID tr))
        (CurrentSpend tr) period"
    by (rule trendsLoop_fallback)
next
  assume "Parse dateStr = Inr date \<and> dateRanges period date = Inr (s, e, ps, pe)
        \<and> Query_current db u s e = Inr rows \<and> Query_prev db u ps pe = Inr prevRows"
  then show "calculateSpendingTrends db u period dateStr =
          Inr (trendsLoop db u period (storePrev Map.empty prevRows) rows)"
    by (simp add: calculateSpendingTrends_rows)
next
  assume a: "(period, days) \<in> {(''day'', 30), (''week'', 84), (''month'', 365)}
        \<and> (\<forall>t \<in> set (transactions st).
              \<not> (tx_UserID t = u \<and> tx_CategoryID t = cid \<and> tx_Type t = ''expense''
                 \<and> tx_Date t \<ge> NOW st - days * secondsPerDay))"
  then have "avgQuery st u cid days = 0"
    by (intro avgQuery_none) simp
  with a show "getHistoricalAverage (storeDB st) u cid period = Inr 0"
    using getHistoricalAverage_store [of period days st u cid] by simp
qed

theorem C7_historical_average_witness:
  "calculateSpendingTrends failingAvg 7 ''month'' ''2024-01-15'' =
     Inr [\<lparr>CategoryID = 2, CategoryName = ''Rent'', CurrentSpend = 100, PredictedSpend = 68,
           TrendDirection = ''up'', ChangePercent = 25\<rparr>,
          \<lparr>CategoryID = 1, CategoryName = ''Food'', CurrentSpend = 0, PredictedSpend = 0,
           TrendDirection = ''new'', ChangePercent = 0\<rparr>]
   \<and> PredictedSpend \<lparr>CategoryID = 2, CategoryName = ''Rent'', CurrentSpend = 100,
         PredictedSpend = 68, TrendDirection = ''up'', ChangePercent = 25\<rparr>
       = calculatePrediction 100 80 100 ''month''
   \<and> getHistoricalAverage (storeDB sampleStore) 7 1 ''month'' = Inr 0"
proof -
  note t = C7_historical_average [of failingAvg 7 "''month''"
      "storePrev Map.empty [Inr (1, 0), Inr (2, 80)]"
      "[Inr (2, ''Rent'', 100), Inr (1, ''Food'', 0)]"
      "''2024-01-15''" "Date 2024 1 15 0 0 0" "Date 2024 1 1 0 0 0" "Date 2024 2 1 0 0 0"
      "Date 2023 12 1 0 0 0" "Date 2024 1 1 0 0 0"
      "[Inr (1, 0), Inr (2, 80)]" 365 sampleStore 1]
  show ?thesis
    using t Parse_example sample_month failingAvg_rows failingAvg_fails sample_no_recent_food
      failingAvg_loop samplePrev_amounts
    by simp
qed

text \<open>
  C8, as amended. The weights 0.4, 0.4 and 0.2, the floor factor 0.8 and the thresholds 10
  and -10 are literals of the handler. They equal the values that package models declares
  in \<open>PredictionConfig\<close>, \<open>PredictionSettings\<close> and \<open>TrendLimits\<close>, so prediction and
  classification compute what the configurable formulas compute at the declared values;
  the handler does not read the package-level values.
\<close>

theorem C8_literals_equal_declared_values:
  "calculatePrediction c p h period
     = spec_configuredPrediction PredictionConfig PredictionSettings c p h
   \<and> (let tr = trendOf db u period prevSpending (cid, name, c)
       in (TrendDirection tr, ChangePercent tr)
          = spec_configuredDirection TrendLimits c (prevAmountOf prevSpending cid))"
  by (simp add: calculatePrediction_def spec_configuredPrediction_def
      spec_configuredDirection_def PredictionConfig_def PredictionSettings_def TrendLimits_def
      currentWeight_def trendWeight_def historicalWeight_def trendOf_def Let_def)

text \<open>
  The claim as it was stated, that prediction and classification follow any other
  assignment of the package-level values, fails: other weights, another floor factor and
  other thresholds give other results than the handler's.
\<close>

theorem C8_configuration_not_read_counterexample:
  "calculatePrediction 100 80 90 ''month''
     \<noteq> spec_configuredPrediction \<lparr>Current = 1, Trend = 0, Historical = 0\<rparr>
         \<lparr>ConservativeEstimate = 0.5\<rparr> 100 80 90
   \<and> calculatePrediction 10 1000 0 ''month''
     \<noteq> spec_configuredPrediction \<lparr>Current = 0.4, Trend = 0.4, Historical = 0.2\<rparr>
         \<lparr>ConservativeEstimate = 0.5\<rparr> 10 1000 0
   \<and> TrendDirection (trendOf failingAvg 7 ''month'' samplePrev (2, ''Rent'', 100))
     \<noteq> fst (spec_configuredDirection \<lparr>UpThreshold = 50, DownThreshold = - 50\<rparr>
              100 (prevAmountOf samplePrev 2))"
  by code_simp





end
